theory Spec2Isabelle
  imports Main "HOL-Library.Sublist"
begin

section \<open>Strings, as the Go standard library treats them\<close>

text \<open>
  A Go string is a sequence of bytes; so is an Isabelle \<open>string\<close>. The functions of this
  section are the parts of \<open>fmt\<close>, \<open>strings\<close>, \<open>unicode/utf8\<close> and \<open>net/url\<close> that
  \<open>request.go\<close> and \<open>constants.go\<close> call.
\<close>

definition digits :: string where
  "digits = ''0123456789''"

fun FormatUint :: "nat \<Rightarrow> string" where
  "FormatUint n =
     (if n < 10 then [digits ! n]
      else FormatUint (n div 10) @ [digits ! (n mod 10)])"

declare FormatUint.simps [simp del]

text \<open>\<open>fmt.Sprintf("%d", i)\<close> for an integer operand.\<close>

definition Sprintf_d :: "int \<Rightarrow> string" where
  "Sprintf_d i = (if i < 0 then CHR ''-'' # FormatUint (nat (- i)) else FormatUint (nat i))"

text \<open>
  The number that a string of decimal digits denotes; the model of \<open>%d\<close> is compared with it.
\<close>

definition digitValue :: "char \<Rightarrow> nat" where
  "digitValue c = of_char c - 48"

definition decimalValue :: "string \<Rightarrow> nat" where
  "decimalValue s = foldl (\<lambda>a c. 10 * a + digitValue c) 0 s"

text \<open>\<open>strings.Join(elems, sep)\<close>.\<close>

fun Join :: "string list \<Rightarrow> string \<Rightarrow> string" where
  "Join [] sep = []"
| "Join [x] sep = x"
| "Join (x # y # ys) sep = x @ sep @ Join (y # ys) sep"

text \<open>
  \<open>strings.Trim(s, cutset)\<close> for a cutset of ASCII bytes (the source passes \<open>" "\<close>): the
  leading and the trailing bytes that belong to the cutset are removed.
\<close>

definition Trim :: "string \<Rightarrow> string \<Rightarrow> string" where
  "Trim s cutset =
     dropWhile (\<lambda>c. c \<in> set cutset) (rev (dropWhile (\<lambda>c. c \<in> set cutset) (rev s)))"

subsection \<open>\<open>url.QueryEscape\<close>\<close>

definition isAlnum :: "char \<Rightarrow> bool" where
  "isAlnum c =
     (let n = (of_char c :: nat)
      in (97 \<le> n \<and> n \<le> 122) \<or> (65 \<le> n \<and> n \<le> 90) \<or> (48 \<le> n \<and> n \<le> 57))"

text \<open>
  \<open>shouldEscape(c, encodeQueryComponent)\<close>: letters and digits are kept, so are the marks
  \<open>- _ . ~\<close>; the reserved characters and everything else are escaped.
\<close>

definition shouldEscape :: "char \<Rightarrow> bool" where
  "shouldEscape c =
     (if isAlnum c then False
      else if c \<in> set ''-_.~'' then False
      else True)"

definition upperhex :: string where
  "upperhex = ''0123456789ABCDEF''"

definition escapeByte :: "char \<Rightarrow> string" where
  "escapeByte c =
     (if c = CHR '' '' then ''+''
      else if shouldEscape c
        then [CHR ''%'', upperhex ! ((of_char c :: nat) div 16), upperhex ! ((of_char c :: nat) mod 16)]
      else [c])"

definition QueryEscape :: "string \<Rightarrow> string" where
  "QueryEscape s = concat (map escapeByte s)"

subsection \<open>\<open>strings.Replace(s, old, new, -1)\<close>\<close>

text \<open>
  \<open>utf8.DecodeRuneInString\<close>, the width it returns: the number of bytes of the UTF-8
  sequence at the head of the string, 1 for a byte that starts no valid sequence, 0 for the
  empty string.
\<close>

definition continuation :: "nat \<Rightarrow> nat \<Rightarrow> string \<Rightarrow> nat \<Rightarrow> bool" where
  "continuation lo hi s i = (i < length s \<and> lo \<le> (of_char (s ! i) :: nat) \<and> (of_char (s ! i) :: nat) \<le> hi)"

definition sequenceWidth :: "nat \<Rightarrow> nat \<Rightarrow> nat \<Rightarrow> string \<Rightarrow> nat" where
  "sequenceWidth sz lo hi s =
     (if length s < sz then 1
      else if \<not> continuation lo hi s 1 then 1
      else if sz \<le> 2 then 2
      else if \<not> continuation 128 191 s 2 then 1
      else if sz \<le> 3 then 3
      else if \<not> continuation 128 191 s 3 then 1
      else 4)"

definition runeWidth :: "string \<Rightarrow> nat" where
  "runeWidth s =
     (case s of
        [] \<Rightarrow> 0
      | c # _ \<Rightarrow>
          (let b = (of_char c :: nat)
           in if b < 128 then 1
              else if b < 194 then 1
              else if b < 224 then sequenceWidth 2 128 191 s
              else if b = 224 then sequenceWidth 3 160 191 s
              else if b < 237 then sequenceWidth 3 128 191 s
              else if b = 237 then sequenceWidth 3 128 159 s
              else if b < 240 then sequenceWidth 3 128 191 s
              else if b = 240 then sequenceWidth 4 144 191 s
              else if b < 244 then sequenceWidth 4 128 191 s
              else if b = 244 then sequenceWidth 4 128 143 s
              else 1))"

text \<open>
  With an empty \<open>old\<close>, \<open>Replace\<close> writes \<open>new\<close> at the beginning of the string and after
  each UTF-8 sequence: \<open>insertAfterRunes\<close> is what follows the first \<open>new\<close>.
\<close>

function insertAfterRunes :: "string \<Rightarrow> string \<Rightarrow> string" where
  "insertAfterRunes s new =
     (if s = [] then []
      else take (runeWidth s) s @ new @ insertAfterRunes (drop (runeWidth s) s) new)"
  by pat_completeness auto
termination
proof (relation "measure (\<lambda>(s, new). length s)")
  show "wf (measure (\<lambda>(s, new :: string). length (s :: string)))"
    by simp
next
  fix s new :: string
  assume nonempty: "s \<noteq> []"
  have "0 < sequenceWidth sz lo hi s" for sz lo hi
    by (simp add: sequenceWidth_def)
  then have "0 < runeWidth s"
    using nonempty by (cases s) (simp_all add: runeWidth_def Let_def)
  then show "((drop (runeWidth s) s, new), (s, new)) \<in> measure (\<lambda>(s, new). length s)"
    using nonempty by simp
qed

declare insertAfterRunes.simps [simp del]

text \<open>
  With a non-empty \<open>old\<close>, the occurrences are found from left to right and do not overlap:
  after one is replaced the search goes on behind it.
\<close>

function replaceOccurrences :: "string \<Rightarrow> string \<Rightarrow> string \<Rightarrow> string" where
  "replaceOccurrences s old new =
     (if s = [] \<or> old = [] then s
      else if prefix old s then new @ replaceOccurrences (drop (length old) s) old new
      else hd s # replaceOccurrences (tl s) old new)"
  by pat_completeness auto
termination
  by (relation "measure (\<lambda>(s, old, new). length s)") auto

declare replaceOccurrences.simps [simp del]

definition ReplaceAll :: "string \<Rightarrow> string \<Rightarrow> string \<Rightarrow> string" where
  "ReplaceAll s old new =
     (if old = new then s
      else if old = [] then new @ insertAfterRunes s new
      else replaceOccurrences s old new)"

section \<open>Enumerations (\<open>constants.go\<close>)\<close>

text \<open>
  \<open>MIME\<close>, \<open>Header\<close> and \<open>Method\<close> are named string types, \<open>Status\<close> is a named
  \<open>int\<close>. The source compares a status with two constants and never computes with it, so
  no overflow can happen and the model uses \<open>int\<close>.
\<close>

type_synonym MIME = string
type_synonym Header = string
type_synonym Method = string
type_synonym Status = int

definition NewMIME :: "string \<Rightarrow> MIME" where
  "NewMIME mime = mime"

definition MIME_String :: "MIME \<Rightarrow> string" where
  "MIME_String m = m"

definition charsetUTF8 :: string where
  "charsetUTF8 = ''charset=UTF-8''"

definition MIMEApplicationJSON :: MIME where
  "MIMEApplicationJSON = ''application/json''"

definition MIMEApplicationJSONCharsetUTF8 :: MIME where
  "MIMEApplicationJSONCharsetUTF8 = MIMEApplicationJSON @ ''; '' @ charsetUTF8"

definition MIMEApplicationXML :: MIME where
  "MIMEApplicationXML = ''application/xml''"

definition MIMEApplicationXMLCharsetUTF8 :: MIME where
  "MIMEApplicationXMLCharsetUTF8 = MIMEApplicationXML @ ''; '' @ charsetUTF8"

definition MIMETextPlain :: MIME where
  "MIMETextPlain = ''text/plain''"

definition Header_String :: "Header \<Rightarrow> string" where
  "Header_String h = h"

definition HeaderAuthorization :: Header where
  "HeaderAuthorization = ''Authorization''"

definition HeaderContentLength :: Header where
  "HeaderContentLength = ''Content-Length''"

definition HeaderContentType :: Header where
  "HeaderContentType = ''Content-Type''"

definition Method_String :: "Method \<Rightarrow> string" where
  "Method_String m = m"

definition MethodGet :: Method where
  "MethodGet = ''GET''"

definition MethodPost :: Method where
  "MethodPost = ''POST''"

definition NewStatus :: "int \<Rightarrow> Status" where
  "NewStatus statusCode = statusCode"

definition Status_Int :: "Status \<Rightarrow> int" where
  "Status_Int s = s"

definition IsSuccess :: "Status \<Rightarrow> bool" where
  "IsSuccess s = (let statusCode = Status_Int s in statusCode \<ge> 200 \<and> statusCode < 300)"

text \<open>
  \<open>Status.String\<close> formats the code and \<open>http.StatusText\<close> of it with \<open>"%d: %s"\<close>; the
  table of reason phrases belongs to \<open>net/http\<close> and is a parameter.
\<close>

definition Status_String :: "(int \<Rightarrow> string) \<Rightarrow> Status \<Rightarrow> string" where
  "Status_String StatusText s =
     (let statusCode = Status_Int s in Sprintf_d statusCode @ '': '' @ StatusText statusCode)"

section \<open>Client (\<open>NewClient\<close>, \<open>Client.Do\<close>, \<open>Client.R\<close>)\<close>

text \<open>
  The settings of the wrapped \<open>net/http\<close> client that \<open>NewClient\<close> fills in; durations are in
  nanoseconds, as \<open>time.Duration\<close> counts them.
\<close>

record http_Client =
  Timeout :: nat
  DisableKeepAlives :: bool
  DialerTimeout :: nat
  TLSHandshakeTimeout :: nat
  MaxIdleConnsPerHost :: nat
  IdleConnTimeout :: nat

record Client =
  inner :: http_Client

definition Second :: nat where
  "Second = 1000000000"

definition DefaultTimeout :: nat where
  "DefaultTimeout = 5 * Second"

definition DefaultDialerTimeout :: nat where
  "DefaultDialerTimeout = 5 * Second"

definition DefaultTLSHandshakeTimeout :: nat where
  "DefaultTLSHandshakeTimeout = 5 * Second"

definition DefaultIdleConnTimeout :: nat where
  "DefaultIdleConnTimeout = 5 * Second"

definition DefaultMaxIdleConnsPerHost :: nat where
  "DefaultMaxIdleConnsPerHost = 100"

definition DefaultDisableKeepAlives :: bool where
  "DefaultDisableKeepAlives = False"

definition NewClient :: "http_Client option \<Rightarrow> Client" where
  "NewClient client =
     (let client' =
        (case client of
           None \<Rightarrow>
             \<lparr>Timeout = DefaultTimeout,
              DisableKeepAlives = DefaultDisableKeepAlives,
              DialerTimeout = DefaultDialerTimeout,
              TLSHandshakeTimeout = DefaultTLSHandshakeTimeout,
              MaxIdleConnsPerHost = DefaultMaxIdleConnsPerHost,
              IdleConnTimeout = DefaultIdleConnTimeout\<rparr>
         | Some c \<Rightarrow> c)
      in \<lparr>inner = client'\<rparr>)"

definition DefaultClient :: Client where
  "DefaultClient = NewClient None"

section \<open>Errors, requests and responses\<close>

text \<open>
  The source builds each error of its own with \<open>fmt.Errorf\<close>, so all such an error holds is
  its message. The constructor says which return statement built it, the argument is the
  message:
  \<^item> \<open>MissingContentType\<close>: \<open>marshal\<close>, the header lookup failed; \<open>Do\<close>, the response has no
    \<open>Content-Type\<close>;
  \<^item> \<open>UnsupportedFormat\<close>: the \<open>default\<close> branches of \<open>marshal\<close> and \<open>unmarshall\<close>;
  \<^item> \<open>HTTPStatusError\<close>: \<open>Do\<close>, the status is no success;
  \<^item> \<open>LibraryError\<close>: an error of \<open>encoding/json\<close>, \<open>encoding/xml\<close>, \<open>net/http\<close> or \<open>io\<close>, which
    the source returns as it is. A library reports an error by its message; \<open>fromLibrary\<close>
    and \<open>fromLibraryOpt\<close> wrap it.
\<close>

datatype error =
    MissingContentType string
  | UnsupportedFormat string
  | HTTPStatusError string
  | LibraryError string

definition fromLibrary :: "string + 'a \<Rightarrow> error + 'a" where
  "fromLibrary x = (case x of Inl msg \<Rightarrow> Inl (LibraryError msg) | Inr y \<Rightarrow> Inr y)"

definition fromLibraryOpt :: "string option \<Rightarrow> error option" where
  "fromLibraryOpt x = (case x of None \<Rightarrow> None | Some msg \<Rightarrow> Some (LibraryError msg))"

datatype Context = Background

record http_Request =
  req_Method :: string
  req_URL :: string
  req_Body :: string
  req_Header :: "string \<rightharpoonup> string"
  req_Context :: Context

text \<open>
  A response as \<open>Do\<close> uses it: the status code, the headers, what reading the body to its end
  gives (\<open>io.Copy\<close>), and what closing the body gives.
\<close>

record http_Response =
  StatusCode :: int
  res_Header :: "string \<rightharpoonup> string"
  res_Body :: "string + string"
  res_Body_Close :: "string option"

definition Header_Get :: "(string \<rightharpoonup> string) \<Rightarrow> string \<Rightarrow> string" where
  "Header_Get hdr key = (case hdr key of None \<Rightarrow> [] | Some v \<Rightarrow> v)"

text \<open>
  What lies outside the repository is a parameter: the two codecs, the rendering of a value
  by the verb \<open>%s\<close>, the reason phrases, the checks of \<open>http.NewRequest\<close> on the method and
  the URL, the canonical form of a header key, and the transport. Go leaves the order in
  which \<open>range\<close> visits the keys of a map open; the orders of the three \<open>range\<close> statements of \<open>Do\<close> are
  parameters too. The type \<open>'v\<close> is the type of the values a body or a sink holds.
\<close>

record 'v env =
  json_Marshal :: "'v \<Rightarrow> string + string"
  xml_Marshal :: "'v \<Rightarrow> string + string"
  json_Unmarshal :: "string \<Rightarrow> 'v \<Rightarrow> string option \<times> 'v"
  xml_Unmarshal :: "string \<Rightarrow> 'v \<Rightarrow> string option \<times> 'v"
  fmt_s :: "'v \<Rightarrow> string"
  StatusText :: "int \<Rightarrow> string"
  http_NewRequest :: "string \<Rightarrow> string \<Rightarrow> string option"
  CanonicalHeaderKey :: "string \<Rightarrow> string"
  transport :: "http_Client \<Rightarrow> http_Request \<Rightarrow> string + http_Response"
  queryOrder :: "string list"
  pathOrder :: "string list"
  headerOrder :: "Header list"

definition Client_Do :: "'v env \<Rightarrow> Client \<Rightarrow> http_Request \<Rightarrow> error + http_Response" where
  "Client_Do env c req = fromLibrary (transport env (inner c) req)"

text \<open>
  A \<open>range\<close> over a map visits each key once: \<open>iteration_order m ks\<close> says that \<open>ks\<close> is
  such an enumeration of the keys of \<open>m\<close>, \<open>range_entries m ks\<close> is the sequence of entries the
  loop body sees.
\<close>

definition iteration_order :: "('k \<rightharpoonup> 'a) \<Rightarrow> 'k list \<Rightarrow> bool" where
  "iteration_order m ks \<longleftrightarrow> distinct ks \<and> set ks = dom m"

definition range_entries :: "('k \<rightharpoonup> 'a) \<Rightarrow> 'k list \<Rightarrow> ('k \<times> 'a) list" where
  "range_entries m ks = List.map_filter (\<lambda>k. map_option (Pair k) (m k)) ks"

section \<open>The request builder (\<open>request.go\<close>)\<close>

record 'v Request =
  client :: Client
  headers :: "Header \<rightharpoonup> string"
  queryParams :: "string \<rightharpoonup> string"
  pathParams :: "string \<rightharpoonup> string"
  reqContext :: Context
  body :: "'v option"

text \<open>
  The methods have a pointer receiver and return it, so the builders live in a store: an
  address that the store does not hold is \<open>nil\<close>, and a method that reads or writes a field
  through it panics (\<open>None\<close>). A builder is made by \<open>NewRequest\<close>, the fields being
  unexported: its three maps are allocated and its client is not \<open>nil\<close>.
\<close>

type_synonym addr = nat
type_synonym 'v heap = "addr \<rightharpoonup> 'v Request"

text \<open>\<open>NewRequest\<close>: the object it allocates.\<close>

definition NewRequest :: "Client option \<Rightarrow> 'v Request" where
  "NewRequest c =
     (let client' = (case c of None \<Rightarrow> DefaultClient | Some c' \<Rightarrow> c')
      in \<lparr>client = client',
          headers = Map.empty,
          queryParams = Map.empty,
          pathParams = Map.empty,
          reqContext = Background,
          body = None\<rparr>)"

definition SetQueryParam :: "addr \<Rightarrow> string \<Rightarrow> string \<Rightarrow> 'v heap \<Rightarrow> (addr \<times> 'v heap) option" where
  "SetQueryParam r name value h =
     (case h r of
        None \<Rightarrow> None
      | Some req \<Rightarrow> Some (r, h(r \<mapsto> req\<lparr>queryParams := (queryParams req)(name \<mapsto> value)\<rparr>)))"

fun SetQueryParams_loop :: "addr \<Rightarrow> (string \<times> string) list \<Rightarrow> 'v heap \<Rightarrow> 'v heap option" where
  "SetQueryParams_loop r [] h = Some h"
| "SetQueryParams_loop r ((name, value) # rest) h =
     (case SetQueryParam r name value h of
        None \<Rightarrow> None
      | Some (_, h') \<Rightarrow> SetQueryParams_loop r rest h')"

text \<open>The order \<open>ks\<close> is the one in which the loop visits \<open>params\<close>.\<close>

definition SetQueryParams :: "addr \<Rightarrow> (string \<rightharpoonup> string) \<Rightarrow> string list \<Rightarrow> 'v heap \<Rightarrow> (addr \<times> 'v heap) option" where
  "SetQueryParams r params ks h =
     (case SetQueryParams_loop r (range_entries params ks) h of
        None \<Rightarrow> None
      | Some h' \<Rightarrow> Some (r, h'))"

definition SetPathParam :: "addr \<Rightarrow> string \<Rightarrow> string \<Rightarrow> 'v heap \<Rightarrow> (addr \<times> 'v heap) option" where
  "SetPathParam r name value h =
     (case h r of
        None \<Rightarrow> None
      | Some req \<Rightarrow> Some (r, h(r \<mapsto> req\<lparr>pathParams := (pathParams req)(name \<mapsto> value)\<rparr>)))"

definition SetHeader :: "addr \<Rightarrow> Header \<Rightarrow> string \<Rightarrow> 'v heap \<Rightarrow> (addr \<times> 'v heap) option" where
  "SetHeader r name value h =
     (case h r of
        None \<Rightarrow> None
      | Some req \<Rightarrow> Some (r, h(r \<mapsto> req\<lparr>headers := (headers req)(name \<mapsto> value)\<rparr>)))"

definition SetBearerToken :: "addr \<Rightarrow> string \<Rightarrow> 'v heap \<Rightarrow> (addr \<times> 'v heap) option" where
  "SetBearerToken r token h =
     (case SetHeader r HeaderAuthorization (''Bearer '' @ Trim token '' '') h of
        None \<Rightarrow> None
      | Some (_, h') \<Rightarrow> Some (r, h'))"

definition SetBody :: "addr \<Rightarrow> 'v option \<Rightarrow> 'v heap \<Rightarrow> (addr \<times> 'v heap) option" where
  "SetBody r b h =
     (case h r of
        None \<Rightarrow> None
      | Some req \<Rightarrow> Some (r, h(r \<mapsto> req\<lparr>body := b\<rparr>)))"

text \<open>
  \<open>marshal\<close> reads the receiver only after the test of \<open>val\<close>; its argument \<open>req\<close> is the
  object the receiver points to. An interface value is \<open>nil\<close> (\<open>None\<close>) or holds a value.
\<close>

definition marshal :: "'v env \<Rightarrow> 'v Request \<Rightarrow> 'v option \<Rightarrow> error + string" where
  "marshal env req val =
     (case val of
        None \<Rightarrow> Inr []
      | Some v \<Rightarrow>
          (case headers req HeaderContentType of
             None \<Rightarrow> Inl (MissingContentType (Header_String HeaderContentType @ '' is not defined''))
           | Some mime \<Rightarrow>
               if NewMIME mime = MIMEApplicationJSON \<or> NewMIME mime = MIMEApplicationJSONCharsetUTF8
                 then fromLibrary (json_Marshal env v)
               else if NewMIME mime = MIMEApplicationXML \<or> NewMIME mime = MIMEApplicationXMLCharsetUTF8
                 then fromLibrary (xml_Marshal env v)
               else Inl (UnsupportedFormat
                      (''serializing format '' @ [CHR 0x27] @ fmt_s env v @ [CHR 0x27] @ '' is not supported''))))"

text \<open>The argument \<open>reader\<close> is what \<open>ioutil.ReadAll\<close> gives on the reader.\<close>

definition unmarshall :: "'v env \<Rightarrow> MIME \<Rightarrow> string + string \<Rightarrow> 'v \<Rightarrow> error option \<times> 'v" where
  "unmarshall env mime reader out =
     (case reader of
        Inl msg \<Rightarrow> (Some (LibraryError msg), out)
      | Inr body' \<Rightarrow>
          if mime = MIMEApplicationJSON \<or> mime = MIMEApplicationJSONCharsetUTF8
            then (case json_Unmarshal env body' out of (e, out') \<Rightarrow> (fromLibraryOpt e, out'))
          else if mime = MIMEApplicationXML \<or> mime = MIMEApplicationXMLCharsetUTF8
            then (case xml_Unmarshal env body' out of (e, out') \<Rightarrow> (fromLibraryOpt e, out'))
          else (Some (UnsupportedFormat
                  (''deserializing format '' @ [CHR 0x27] @ MIME_String mime @ [CHR 0x27] @ '' is not supported'')), out))"

text \<open>The loop of \<open>Do\<close> over the query parameters, and the string it is joined to.\<close>

fun formatQueryParams :: "(string \<times> string) list \<Rightarrow> string list" where
  "formatQueryParams [] = []"
| "formatQueryParams ((name, value) # rest) =
     (QueryEscape name @ ''='' @ QueryEscape value) # formatQueryParams rest"

text \<open>The loop of \<open>Do\<close> over the path parameters.\<close>

fun replacePathParams :: "string \<Rightarrow> (string \<times> string) list \<Rightarrow> string" where
  "replacePathParams URL [] = URL"
| "replacePathParams URL ((name, value) # rest) =
     replacePathParams (ReplaceAll URL name (QueryEscape value)) rest"

definition finalURL :: "'v env \<Rightarrow> 'v Request \<Rightarrow> string \<Rightarrow> string" where
  "finalURL env req URL =
     (let params = formatQueryParams (range_entries (queryParams req) (queryOrder env));
          URL' = URL @ ''?'' @ Join params ''&''
      in replacePathParams URL' (range_entries (pathParams req) (pathOrder env)))"

text \<open>The loop of \<open>Do\<close> that copies the headers with \<open>req.Header.Set\<close>.\<close>

fun setHeaders :: "(string \<Rightarrow> string) \<Rightarrow> (string \<rightharpoonup> string) \<Rightarrow> (Header \<times> string) list \<Rightarrow> (string \<rightharpoonup> string)" where
  "setHeaders canon hdr [] = hdr"
| "setHeaders canon hdr ((name, value) # rest) =
     setHeaders canon (hdr(canon (Header_String name) \<mapsto> value)) rest"

text \<open>
  What \<open>Do\<close> does to the world is a trace: the request it hands to the transport, the reading
  of the response body to its end, the closing of the body (which gives the connection back).
\<close>

datatype event = Transport http_Request | BodyRead | BodyClose

record 'v outcome =
  err :: "error option"
  heap_after :: "'v heap"
  trace :: "event list"
  sink :: "'v option"

definition Do :: "'v env \<Rightarrow> addr \<Rightarrow> Method \<Rightarrow> string \<Rightarrow> 'v option \<Rightarrow> 'v heap \<Rightarrow> 'v outcome option" where
  "Do env r method URL out h =
     (case h r of
        None \<Rightarrow> None
      | Some req0 \<Rightarrow>
     (case marshal env req0 (body req0) of
        Inl e \<Rightarrow> Some \<lparr>err = Some e, heap_after = h, trace = [], sink = out\<rparr>
      | Inr body' \<Rightarrow>
     (let URL' = finalURL env req0 URL
      in case SetHeader r HeaderContentLength (Sprintf_d (int (length body'))) h of
        None \<Rightarrow> None
      | Some (_, h') \<Rightarrow>
     (case h' r of
        None \<Rightarrow> None
      | Some req1 \<Rightarrow>
     (case fromLibraryOpt (http_NewRequest env (Method_String method) URL') of
        Some e \<Rightarrow> Some \<lparr>err = Some e, heap_after = h', trace = [], sink = out\<rparr>
      | None \<Rightarrow>
     (let req =
        \<lparr>req_Method = Method_String method,
         req_URL = URL',
         req_Body = body',
         req_Header =
           setHeaders (CanonicalHeaderKey env) Map.empty (range_entries (headers req1) (headerOrder env)),
         req_Context = reqContext req1\<rparr>
      in case Client_Do env (client req1) req of
        Inl e \<Rightarrow> Some \<lparr>err = Some e, heap_after = h', trace = [Transport req], sink = out\<rparr>
      | Inr res \<Rightarrow>
     (let status = NewStatus (StatusCode res)
      in if \<not> IsSuccess status
        then Some \<lparr>err = Some (HTTPStatusError
                      (''http request failed, got status: '' @ Status_String (StatusText env) status)),
                   heap_after = h', trace = [Transport req], sink = out\<rparr>
      else
     (case fromLibrary (res_Body res) of
        Inl e \<Rightarrow> Some \<lparr>err = Some e, heap_after = h', trace = [Transport req, BodyRead], sink = out\<rparr>
      | Inr buf \<Rightarrow>
     (case fromLibraryOpt (res_Body_Close res) of
        Some e \<Rightarrow>
          Some \<lparr>err = Some e, heap_after = h', trace = [Transport req, BodyRead, BodyClose], sink = out\<rparr>
      | None \<Rightarrow>
     (case out of
        None \<Rightarrow>
          Some \<lparr>err = None, heap_after = h', trace = [Transport req, BodyRead, BodyClose], sink = None\<rparr>
      | Some target \<Rightarrow>
     (let val = Header_Get (res_Header res) (Header_String HeaderContentType)
      in if val = []
        then Some \<lparr>err = Some (MissingContentType
                      (''could not auto-detect response format, header '' @ [CHR 0x27]
                       @ Header_String HeaderContentType @ [CHR 0x27] @ '' is not set'')),
                   heap_after = h', trace = [Transport req, BodyRead, BodyClose], sink = out\<rparr>
      else
     (case unmarshall env (NewMIME val) (Inr buf) target of
        (e, target') \<Rightarrow>
          Some \<lparr>err = e, heap_after = h', trace = [Transport req, BodyRead, BodyClose],
                sink = Some target'\<rparr>))))))))))))"

definition Get :: "'v env \<Rightarrow> addr \<Rightarrow> string \<Rightarrow> 'v option \<Rightarrow> 'v heap \<Rightarrow> 'v outcome option" where
  "Get env r URL out h = Do env r MethodGet URL out h"

definition Post :: "'v env \<Rightarrow> addr \<Rightarrow> string \<Rightarrow> 'v option \<Rightarrow> 'v heap \<Rightarrow> 'v outcome option" where
  "Post env r URL out h = Do env r MethodPost URL out h"

section \<open>Path parameters, in the words of the specification\<close>

text \<open>
  The specification says that, for every path parameter, every literal occurrence of its name
  in the URL is replaced by its percent-encoded value. \<open>substituteParams\<close> follows these
  words: it reads the URL from left to right, and where the name of a parameter starts it
  writes the encoded value of that parameter and goes on behind the name. What it has written
  is not read again. It is the yardstick for the loop of \<open>Do\<close>, not a part of the source.
\<close>

function substituteParams :: "(string \<times> string) list \<Rightarrow> string \<Rightarrow> string" where
  "substituteParams ps s =
     (if s = [] then []
      else case find (\<lambda>p. fst p \<noteq> [] \<and> prefix (fst p) s) ps of
             Some p \<Rightarrow> QueryEscape (snd p) @ substituteParams ps (drop (length (fst p)) s)
           | None \<Rightarrow> hd s # substituteParams ps (tl s))"
  by pat_completeness auto
termination
proof (relation "measure (\<lambda>(ps, s). length s)")
  show "wf (measure (\<lambda>(ps :: (string \<times> string) list, s :: string). length s))"
    by simp
next
  fix ps :: "(string \<times> string) list" and s :: string and p :: "string \<times> string"
  assume "s \<noteq> []" and "find (\<lambda>p. fst p \<noteq> [] \<and> prefix (fst p) s) ps = Some p"
  then have "fst p \<noteq> []"
    by (auto simp: find_Some_iff)
  then show "((ps, drop (length (fst p)) s), (ps, s)) \<in> measure (\<lambda>(ps, s). length s)"
    using \<open>s \<noteq> []\<close> by simp
next
  fix ps :: "(string \<times> string) list" and s :: string
  assume "s \<noteq> []"
  then show "((ps, tl s), (ps, s)) \<in> measure (\<lambda>(ps, s). length s)"
    by simp
qed

declare substituteParams.simps [simp del]

section \<open>An example environment\<close>

text \<open>
  For concrete runs: bodies and sinks are Go strings made of characters that neither codec
  escapes. \<open>json.Marshal\<close> puts such a string between double quotes, \<open>xml.Marshal\<close> between
  \<open><string>\<close> tags, and \<open>%s\<close> prints a string as it is. The decoders store the bytes they are
  given. \<open>http.NewRequest\<close> accepts the method and the URL, the header keys are taken to be
  canonical, and the server answers every request with \<open>res\<close>.
\<close>

definition exampleStatusText :: "int \<Rightarrow> string" where
  "exampleStatusText code =
     (if code = 200 then ''OK''
      else if code = 201 then ''Created''
      else if code = 404 then ''Not Found''
      else if code = 500 then ''Internal Server Error''
      else [])"

definition exampleEnv :: "string list \<Rightarrow> string list \<Rightarrow> Header list \<Rightarrow> http_Response \<Rightarrow> string env" where
  "exampleEnv qs ps hs res =
     \<lparr>json_Marshal = (\<lambda>v. Inr ([CHR 0x22] @ v @ [CHR 0x22])),
      xml_Marshal = (\<lambda>v. Inr (''<string>'' @ v @ ''</string>'')),
      json_Unmarshal = (\<lambda>b target. (None, b)),
      xml_Unmarshal = (\<lambda>b target. (None, b)),
      fmt_s = (\<lambda>v. v),
      StatusText = exampleStatusText,
      http_NewRequest = (\<lambda>method URL. None),
      CanonicalHeaderKey = (\<lambda>key. key),
      transport = (\<lambda>c req. Inr res),
      queryOrder = qs,
      pathOrder = ps,
      headerOrder = hs\<rparr>"

definition exampleResponse :: "int \<Rightarrow> http_Response" where
  "exampleResponse code =
     \<lparr>StatusCode = code,
      res_Header = [''Content-Type'' \<mapsto> MIMEApplicationJSONCharsetUTF8],
      res_Body = Inr ([CHR 0x22] @ ''bar'' @ [CHR 0x22]),
      res_Body_Close = None\<rparr>"

section \<open>Status codes\<close>

text \<open>
  Claim C6. For every integer status code \<open>s\<close>, \<open>Status(s).IsSuccess()\<close> is true if and only
  if \<open>s\<close> is at least 200 and less than 300.
\<close>

theorem IsSuccess_iff_range:
  "IsSuccess (NewStatus s) \<longleftrightarrow> s \<ge> 200 \<and> s < 300"
  by (simp add: IsSuccess_def NewStatus_def Status_Int_def)

section \<open>Marshaling the body\<close>

text \<open>
  Claim C7. On a request whose body is \<open>nil\<close>, \<open>marshal\<close> succeeds with the empty byte
  sequence, whatever the headers hold, so also when no \<open>Content-Type\<close> is set.
\<close>

theorem marshal_nil_body:
  assumes "body req = None"
  shows "marshal env req (body req) = Inr []"
  using assms by (simp add: marshal_def)

theorem marshal_nil_body_witness:
  "body (NewRequest None :: string Request) = None
   \<and> headers (NewRequest None :: string Request) HeaderContentType = None
   \<and> marshal (exampleEnv [] [] [] (exampleResponse 200)) (NewRequest None)
         (body (NewRequest None :: string Request)) = Inr []"
  using marshal_nil_body [of "NewRequest None :: string Request" "exampleEnv [] [] [] (exampleResponse 200)"]
  by (simp add: NewRequest_def)

text \<open>
  Claim C2. A request with a body and no \<open>Content-Type\<close> header: \<open>Do\<close> returns the
  error of \<open>marshal\<close> that says the header is not defined, and returns it before anything
  else happens. The trace is empty, so the transport was not called and no byte was sent;
  the builder is as it was.
\<close>

theorem Do_missing_content_type:
  assumes "h r = Some req" and "body req = Some v" and "headers req HeaderContentType = None"
  shows "Do env r method URL out h =
           Some \<lparr>err = Some (MissingContentType ''Content-Type is not defined''),
                 heap_after = h, trace = [], sink = out\<rparr>"
  using assms by (simp add: Do_def marshal_def HeaderContentType_def Header_String_def)

theorem Do_missing_content_type_witness:
  "[0 \<mapsto> (NewRequest None)\<lparr>body := Some ''foo''\<rparr>] (0::nat) = Some ((NewRequest None)\<lparr>body := Some ''foo''\<rparr>)
   \<and> body ((NewRequest None)\<lparr>body := Some ''foo''\<rparr>) = Some ''foo''
   \<and> headers ((NewRequest None :: string Request)\<lparr>body := Some ''foo''\<rparr>) HeaderContentType = None
   \<and> Do (exampleEnv [] [] [] (exampleResponse 200)) 0 MethodPost ''http://host/items'' None
         [0 \<mapsto> (NewRequest None)\<lparr>body := Some ''foo''\<rparr>]
       = Some \<lparr>err = Some (MissingContentType ''Content-Type is not defined''),
               heap_after = [0 \<mapsto> (NewRequest None)\<lparr>body := Some ''foo''\<rparr>],
               trace = [], sink = None\<rparr>"
  using Do_missing_content_type
    [of "[0 \<mapsto> (NewRequest None)\<lparr>body := Some ''foo''\<rparr>]" 0
        "(NewRequest None)\<lparr>body := Some ''foo''\<rparr>" "''foo''"
        "exampleEnv [] [] [] (exampleResponse 200)" MethodPost "''http://host/items''" None]
  by (simp add: NewRequest_def)

section \<open>Iteration over maps\<close>

lemma range_entries_Nil: "range_entries m [] = []"
  by (simp add: range_entries_def)

lemma range_entries_Cons:
  "range_entries m (k # ks) = (case m k of None \<Rightarrow> range_entries m ks | Some v \<Rightarrow> (k, v) # range_entries m ks)"
  by (simp add: range_entries_def split: option.splits)

lemma range_entries_in_map: "(k, v) \<in> set (range_entries m ks) \<Longrightarrow> m k = Some v"
  by (induction ks) (auto simp: range_entries_Nil range_entries_Cons split: option.splits)

lemma range_entries_total:
  "set ks \<subseteq> dom m \<Longrightarrow> range_entries m ks = map (\<lambda>k. (k, the (m k))) ks"
  by (induction ks) (auto simp: range_entries_Nil range_entries_Cons split: option.splits)

lemma map_of_range_entries:
  assumes "iteration_order m ks"
  shows "map_of (rev (range_entries m ks)) = m"
proof -
  from assms have s: "set ks = dom m"
    by (simp add: iteration_order_def)
  have "rev (range_entries m ks) = map (\<lambda>k. (k, the (m k))) (rev ks)"
    using s by (simp add: range_entries_total rev_map)
  then have e: "map_of (rev (range_entries m ks)) = (Some \<circ> (\<lambda>k. the (m k))) |` set (rev ks)"
    by (simp only: map_of_map_restrict)
  show ?thesis
  proof
    fix k
    show "map_of (rev (range_entries m ks)) k = m k"
      using s by (cases "m k") (auto simp: e restrict_map_def)
  qed
qed

lemma entries_for_key:
  assumes "iteration_order m ks" and "m n = Some v"
  shows "filter (\<lambda>e. fst e = n) (range_entries m ks) = [(n, v)]"
proof -
  from assms have d: "distinct ks" and s: "set ks = dom m"
    by (simp_all add: iteration_order_def)
  have mem: "n \<in> set ks" using s assms(2) by auto
  have one: "distinct xs \<Longrightarrow> n \<in> set xs \<Longrightarrow> filter (\<lambda>k. k = n) xs = [n]" for xs :: "'a list"
    by (induction xs) (auto simp: filter_empty_conv)
  have "filter (\<lambda>e. fst e = n) (range_entries m ks) = map (\<lambda>k. (k, the (m k))) (filter (\<lambda>k. k = n) ks)"
    using s by (simp add: range_entries_total filter_map comp_def)
  then show ?thesis using one [OF d mem] assms(2) by simp
qed

section \<open>Setting parameters and headers\<close>

lemma SetQueryParams_loop_result:
  "SetQueryParams_loop r es (h(r \<mapsto> req)) =
     Some (h(r \<mapsto> req\<lparr>queryParams := queryParams req ++ map_of (rev es)\<rparr>))"
proof (induction es arbitrary: req)
  case Nil
  show ?case by simp
next
  case (Cons e es)
  obtain n v where e: "e = (n, v)" by (cases e)
  have "(queryParams req)(n \<mapsto> v) ++ map_of (rev es) = queryParams req ++ map_of (rev es @ [(n, v)])"
    by (simp add: map_add_def fun_eq_iff split: option.splits)
  moreover have "SetQueryParam r n v (h(r \<mapsto> req))
      = Some (r, h(r \<mapsto> req\<lparr>queryParams := (queryParams req)(n \<mapsto> v)\<rparr>))"
    by (simp add: SetQueryParam_def)
  ultimately show ?case
    using Cons.IH [of "req\<lparr>queryParams := (queryParams req)(n \<mapsto> v)\<rparr>"]
    by (simp add: e del: fun_upd_apply)
qed

lemma SetQueryParams_result:
  assumes "h r = Some req" and "iteration_order params ks"
  shows "SetQueryParams r params ks h = Some (r, h(r \<mapsto> req\<lparr>queryParams := queryParams req ++ params\<rparr>))"
proof -
  have "h = h(r \<mapsto> req)"
    using assms(1) by (simp add: fun_upd_idem)
  then have "SetQueryParams_loop r (range_entries params ks) h =
          Some (h(r \<mapsto> req\<lparr>queryParams := queryParams req ++ map_of (rev (range_entries params ks))\<rparr>))"
    using SetQueryParams_loop_result [of r "range_entries params ks" h req] by simp
  then show ?thesis
    by (simp add: SetQueryParams_def map_of_range_entries [OF assms(2)])
qed

text \<open>
  Claim C5. \<open>SetQueryParam(n, v1)\<close> and then \<open>SetQueryParam(n, v2)\<close> on the same builder:
  both calls return the builder, its map of query parameters holds \<open>v2\<close> for \<open>n\<close>, and a
  loop over the map meets exactly one entry for \<open>n\<close>. The same for \<open>SetQueryParams\<close>: after
  two calls the map is the old one overridden by the first argument and then by the second,
  in whatever order each loop visits its argument, so a name of the second call has the
  value given there.
\<close>

theorem SetQueryParam_last_value_wins:
  assumes "h r = Some req"
      and "iteration_order params1 ks1" and "iteration_order params2 ks2"
      and "params2 n = Some v2"
  shows "SetQueryParam r n v1 h = Some (r, h(r \<mapsto> req\<lparr>queryParams := (queryParams req)(n \<mapsto> v1)\<rparr>))
       \<and> SetQueryParam r n v2 (h(r \<mapsto> req\<lparr>queryParams := (queryParams req)(n \<mapsto> v1)\<rparr>))
           = Some (r, h(r \<mapsto> req\<lparr>queryParams := (queryParams req)(n \<mapsto> v2)\<rparr>))
       \<and> ((queryParams req)(n \<mapsto> v2)) n = Some v2
       \<and> (\<forall>ks. iteration_order ((queryParams req)(n \<mapsto> v2)) ks \<longrightarrow>
             filter (\<lambda>e. fst e = n) (range_entries ((queryParams req)(n \<mapsto> v2)) ks) = [(n, v2)])
       \<and> SetQueryParams r params1 ks1 h = Some (r, h(r \<mapsto> req\<lparr>queryParams := queryParams req ++ params1\<rparr>))
       \<and> SetQueryParams r params2 ks2 (h(r \<mapsto> req\<lparr>queryParams := queryParams req ++ params1\<rparr>))
           = Some (r, h(r \<mapsto> req\<lparr>queryParams := queryParams req ++ params1 ++ params2\<rparr>))
       \<and> (queryParams req ++ params1 ++ params2) n = Some v2
       \<and> (\<forall>ks. iteration_order (queryParams req ++ params1 ++ params2) ks \<longrightarrow>
             filter (\<lambda>e. fst e = n) (range_entries (queryParams req ++ params1 ++ params2) ks) = [(n, v2)])"
proof -
  let ?h1 = "h(r \<mapsto> req\<lparr>queryParams := queryParams req ++ params1\<rparr>)"
  have a: "SetQueryParam r n v1 h = Some (r, h(r \<mapsto> req\<lparr>queryParams := (queryParams req)(n \<mapsto> v1)\<rparr>))"
    using assms(1) by (simp add: SetQueryParam_def)
  have b: "SetQueryParam r n v2 (h(r \<mapsto> req\<lparr>queryParams := (queryParams req)(n \<mapsto> v1)\<rparr>))
           = Some (r, h(r \<mapsto> req\<lparr>queryParams := (queryParams req)(n \<mapsto> v2)\<rparr>))"
    by (simp add: SetQueryParam_def)
  have c: "\<forall>ks. iteration_order ((queryParams req)(n \<mapsto> v2)) ks \<longrightarrow>
             filter (\<lambda>e. fst e = n) (range_entries ((queryParams req)(n \<mapsto> v2)) ks) = [(n, v2)]"
    by (simp add: entries_for_key)
  have d: "SetQueryParams r params1 ks1 h = Some (r, ?h1)"
    using SetQueryParams_result [of h r req params1 ks1] assms(1,2) by simp
  have e: "SetQueryParams r params2 ks2 ?h1
           = Some (r, h(r \<mapsto> req\<lparr>queryParams := queryParams req ++ params1 ++ params2\<rparr>))"
    using SetQueryParams_result [of ?h1 r "req\<lparr>queryParams := queryParams req ++ params1\<rparr>" params2 ks2] assms(3)
    by simp
  have f: "(queryParams req ++ params1 ++ params2) n = Some v2"
    using assms(4) by simp
  have g: "\<forall>ks. iteration_order (queryParams req ++ params1 ++ params2) ks \<longrightarrow>
             filter (\<lambda>e. fst e = n) (range_entries (queryParams req ++ params1 ++ params2) ks) = [(n, v2)]"
    using f by (simp add: entries_for_key)
  show ?thesis using a b c d e f g by simp
qed

theorem SetQueryParam_last_value_wins_witness:
  "[0 \<mapsto> NewRequest None] (0::nat) = Some (NewRequest None :: string Request)
   \<and> iteration_order [''page'' \<mapsto> ''1'', ''q'' \<mapsto> ''x''] [''q'', ''page'']
   \<and> iteration_order [''page'' \<mapsto> ''2''] [''page'']
   \<and> [''page'' \<mapsto> ''2''] ''page'' = Some ''2''
   \<and> SetQueryParam 0 ''page'' ''2''
         [0 \<mapsto> (NewRequest None :: string Request)\<lparr>queryParams := [''page'' \<mapsto> ''1'']\<rparr>]
       = Some (0, [0 \<mapsto> (NewRequest None)\<lparr>queryParams := [''page'' \<mapsto> ''2'']\<rparr>])
   \<and> SetQueryParams 0 [''page'' \<mapsto> ''2''] [''page'']
         [0 \<mapsto> (NewRequest None :: string Request)\<lparr>queryParams := [''page'' \<mapsto> ''1'', ''q'' \<mapsto> ''x'']\<rparr>]
       = Some (0, [0 \<mapsto> (NewRequest None)\<lparr>queryParams := [''q'' \<mapsto> ''x'', ''page'' \<mapsto> ''2'']\<rparr>])"
proof -
  have o1: "iteration_order [''page'' \<mapsto> ''1'', ''q'' \<mapsto> ''x''] [''q'', ''page'']"
    by (auto simp: iteration_order_def)
  have o2: "iteration_order [''page'' \<mapsto> ''2''] [''page'']"
    by (auto simp: iteration_order_def)
  show ?thesis
    using SetQueryParam_last_value_wins
      [where h = "[0 \<mapsto> NewRequest None :: string Request]" and r = 0 and req = "NewRequest None"
         and ?params1.0 = "[''page'' \<mapsto> ''1'', ''q'' \<mapsto> ''x'']" and ?ks1.0 = "[''q'', ''page'']"
         and ?params2.0 = "[''page'' \<mapsto> ''2'']" and ?ks2.0 = "[''page'']"
         and n = "''page''" and ?v2.0 = "''2''"]
      o1 o2
    by (simp add: NewRequest_def)
qed

lemma takeWhile_eq_replicate: "takeWhile (\<lambda>c. c = a) xs = replicate (length (takeWhile (\<lambda>c. c = a) xs)) a"
proof -
  have "\<forall>y\<in>set (takeWhile (\<lambda>c. c = a) xs). y = a"
    by (auto dest: set_takeWhileD)
  then show ?thesis
    by (simp add: replicate_length_same)
qed

lemma strip_both_ends:
  "xs = takeWhile P (rev (dropWhile P (rev xs)))
        @ dropWhile P (rev (dropWhile P (rev xs)))
        @ rev (takeWhile P (rev xs))"
proof -
  let ?u = "dropWhile P (rev xs)"
  have "rev (takeWhile P (rev xs) @ ?u) = rev ?u @ rev (takeWhile P (rev xs))"
    by (rule rev_append)
  moreover have "takeWhile P (rev xs) @ ?u = rev xs"
    by (rule takeWhile_dropWhile_id)
  ultimately have "rev (rev xs) = rev ?u @ rev (takeWhile P (rev xs))"
    by (simp only:)
  then have a: "xs = rev ?u @ rev (takeWhile P (rev xs))"
    by (simp only: rev_rev_ident)
  have b: "takeWhile P (rev ?u) @ dropWhile P (rev ?u) = rev ?u"
    by (rule takeWhile_dropWhile_id)
  have "xs = (takeWhile P (rev ?u) @ dropWhile P (rev ?u)) @ rev (takeWhile P (rev xs))"
    using a by (simp only: b)
  then show ?thesis
    by (simp only: append_assoc)
qed

lemma Trim_space_decomp:
  "\<exists>i j. t = replicate i (CHR '' '') @ Trim t '' '' @ replicate j (CHR '' '')"
proof -
  let ?sp = "\<lambda>c. c = CHR '' ''"
  let ?lead = "takeWhile ?sp (rev (dropWhile ?sp (rev t)))"
  let ?trail = "takeWhile ?sp (rev t)"
  have T: "Trim t '' '' = dropWhile ?sp (rev (dropWhile ?sp (rev t)))"
    by (simp add: Trim_def)
  have l: "?lead = replicate (length ?lead) (CHR '' '')"
    by (rule takeWhile_eq_replicate)
  have "?trail = replicate (length ?trail) (CHR '' '')"
    by (rule takeWhile_eq_replicate)
  then have "rev ?trail = rev (replicate (length ?trail) (CHR '' ''))"
    by (rule arg_cong)
  then have r: "rev ?trail = replicate (length ?trail) (CHR '' '')"
    by (simp only: rev_replicate)
  have "t = ?lead @ Trim t '' '' @ rev ?trail"
    unfolding T by (rule strip_both_ends)
  then have "t = replicate (length ?lead) (CHR '' '') @ Trim t '' '' @ replicate (length ?trail) (CHR '' '')"
    using l r by (simp only:)
  then show ?thesis by blast
qed

lemma last_dropWhile_nonempty: "dropWhile P xs \<noteq> [] \<Longrightarrow> last (dropWhile P xs) = last xs"
  by (induction xs) (auto split: if_splits)


lemma Trim_space_ends:
  assumes "Trim t '' '' \<noteq> []"
  shows "hd (Trim t '' '') \<noteq> CHR '' '' \<and> last (Trim t '' '') \<noteq> CHR '' ''"
proof -
  let ?sp = "\<lambda>c. c = CHR '' ''"
  let ?u = "dropWhile ?sp (rev t)"
  have T: "Trim t '' '' = dropWhile ?sp (rev ?u)"
    by (simp add: Trim_def)
  have ne: "dropWhile ?sp (rev ?u) \<noteq> []"
    using assms unfolding T .
  have u: "?u \<noteq> []"
  proof
    assume "?u = []"
    then have "dropWhile ?sp (rev ?u) = []" by (simp only: rev.simps dropWhile.simps)
    with ne show False by (rule notE)
  qed
  have h: "hd (dropWhile ?sp (rev ?u)) \<noteq> CHR '' ''"
    using hd_dropWhile [OF ne] .
  have "last (dropWhile ?sp (rev ?u)) = last (rev ?u)"
    using ne by (rule last_dropWhile_nonempty)
  also have "last (rev ?u) = hd ?u"
    by (rule last_rev)
  finally have eq: "last (dropWhile ?sp (rev ?u)) = hd ?u" .
  have l: "last (dropWhile ?sp (rev ?u)) \<noteq> CHR '' ''"
    unfolding eq using hd_dropWhile [OF u] .
  show ?thesis
    unfolding T using h l by (rule conjI)
qed

text \<open>
  Claim C8. \<open>SetBearerToken(t)\<close> returns its receiver and sets the \<open>Authorization\<close> header
  to \<open>"Bearer "\<close> followed by the trimmed token; the other fields and the other builders
  stay. The trimmed token is \<open>t\<close> without the spaces around it: \<open>t\<close> is some spaces, the
  trimmed token, some spaces, and the trimmed token neither starts nor ends with a space.
\<close>

theorem SetBearerToken_sets_Authorization:
  assumes "h r = Some req"
  shows "SetBearerToken r token h =
           Some (r, h(r \<mapsto> req\<lparr>headers := (headers req)(HeaderAuthorization \<mapsto> ''Bearer '' @ Trim token '' '')\<rparr>))
       \<and> (\<exists>i j. token = replicate i (CHR '' '') @ Trim token '' '' @ replicate j (CHR '' ''))
       \<and> (Trim token '' '' = [] \<or>
            (hd (Trim token '' '') \<noteq> CHR '' '' \<and> last (Trim token '' '') \<noteq> CHR '' ''))"
proof (intro conjI)
  show "SetBearerToken r token h =
           Some (r, h(r \<mapsto> req\<lparr>headers := (headers req)(HeaderAuthorization \<mapsto> ''Bearer '' @ Trim token '' '')\<rparr>))"
    using assms by (simp add: SetBearerToken_def SetHeader_def)
  show "\<exists>i j. token = replicate i (CHR '' '') @ Trim token '' '' @ replicate j (CHR '' '')"
    by (rule Trim_space_decomp)
  show "Trim token '' '' = [] \<or>
            (hd (Trim token '' '') \<noteq> CHR '' '' \<and> last (Trim token '' '') \<noteq> CHR '' '')"
    using Trim_space_ends [of token] by blast
qed

theorem SetBearerToken_sets_Authorization_witness:
  "[0 \<mapsto> NewRequest None] (0::nat) = Some (NewRequest None :: string Request)
   \<and> SetBearerToken 0 ''  abc d '' [0 \<mapsto> NewRequest None :: string Request]
       = Some (0, [0 \<mapsto> (NewRequest None)\<lparr>headers := [''Authorization'' \<mapsto> ''Bearer abc d'']\<rparr>])
   \<and> ''  abc d '' = replicate 2 (CHR '' '') @ Trim ''  abc d '' '' '' @ replicate 1 (CHR '' '')"
proof -
  have t: "Trim ''  abc d '' '' '' = ''abc d''"
    by (simp add: Trim_def)
  have r: "replicate 2 (CHR '' '') = ''  ''" "replicate 1 (CHR '' '') = '' ''"
    by (simp_all add: numeral_2_eq_2)
  show ?thesis
    using SetBearerToken_sets_Authorization
      [where h = "[0 \<mapsto> NewRequest None :: string Request]" and r = 0 and req = "NewRequest None"
         and token = "''  abc d ''"]
    by (simp add: t r NewRequest_def HeaderAuthorization_def)
qed

section \<open>Running a request\<close>

lemma Do_marshal_error:
  assumes "h r = Some req" and "marshal env req (body req) = Inl e"
  shows "Do env r method URL out h = Some \<lparr>err = Some e, heap_after = h, trace = [], sink = out\<rparr>"
  using assms by (simp add: Do_def)

lemma Do_heap_after:
  assumes "h r = Some req" and "marshal env req (body req) = Inr b"
  shows "\<exists>res. Do env r method URL out h = Some res
       \<and> heap_after res = h(r \<mapsto> req\<lparr>headers := (headers req)(HeaderContentLength \<mapsto> Sprintf_d (int (length b)))\<rparr>)"
  using assms
  by (simp add: Do_def SetHeader_def Let_def split: option.splits sum.splits prod.splits)

lemma Do_transport_URL:
  assumes "h r = Some req" and "Do env r method URL out h = Some res" and "Transport q \<in> set (trace res)"
  shows "req_URL q = finalURL env req URL"
  using assms
  by (auto simp: Do_def SetHeader_def Let_def split: option.splits sum.splits prod.splits if_splits)

lemma digitValue_digits: "n < 10 \<Longrightarrow> digitValue (digits ! n) = n"
proof -
  have "\<forall>k<10. digitValue (digits ! k) = k"
    unfolding digits_def digitValue_def
    by (simp add: eval_nat_numeral All_less_Suc)
  then show "n < 10 \<Longrightarrow> digitValue (digits ! n) = n"
    by blast
qed

lemma decimalValue_snoc: "decimalValue (s @ [c]) = 10 * decimalValue s + digitValue c"
  by (simp add: decimalValue_def)

lemma decimalValue_FormatUint: "decimalValue (FormatUint n) = n"
proof (induction n rule: FormatUint.induct)
  case (1 n)
  show ?case
  proof (cases "n < 10")
    case True
    then show ?thesis
      by (subst FormatUint.simps) (simp add: decimalValue_def digitValue_digits)
  next
    case False
    then have "decimalValue (FormatUint (n div 10)) = n div 10"
      by (rule "1.IH")
    moreover have "digitValue (digits ! (n mod 10)) = n mod 10"
      by (simp add: digitValue_digits)
    ultimately show ?thesis
      using False by (subst FormatUint.simps) (simp add: decimalValue_snoc)
  qed
qed

lemma decimalValue_Sprintf_d: "decimalValue (Sprintf_d (int n)) = n"
  by (simp add: Sprintf_d_def decimalValue_FormatUint)

lemma Do_status_check:
  assumes "h r = Some req" and "Do env r method URL out h = Some res"
      and "Transport q \<in> set (trace res)" and "transport env (inner (client req)) q = Inr resp"
  shows "(\<not> IsSuccess (NewStatus (StatusCode resp)) \<longrightarrow>
            err res = Some (HTTPStatusError
                        (''http request failed, got status: '' @ Sprintf_d (StatusCode resp) @ '': ''
                         @ StatusText env (StatusCode resp)))
            \<and> trace res = [Transport q])
       \<and> (IsSuccess (NewStatus (StatusCode resp)) \<longrightarrow>
            (\<forall>m. err res \<noteq> Some (HTTPStatusError m)) \<and> BodyRead \<in> set (trace res))"
  using assms
  by (auto simp: Do_def SetHeader_def Let_def Client_Do_def fromLibrary_def fromLibraryOpt_def
        unmarshall_def Status_String_def NewStatus_def Status_Int_def
      split: option.splits sum.splits prod.splits if_splits)

lemmas run_defs =
  Do_def marshal_def NewRequest_def SetHeader_def finalURL_def exampleEnv_def
  exampleResponse_def range_entries_def Client_Do_def NewStatus_def IsSuccess_def Status_Int_def
  Status_String_def exampleStatusText_def HeaderContentLength_def HeaderContentType_def Method_String_def
  MethodGet_def MethodPost_def Header_String_def fromLibrary_def fromLibraryOpt_def

text \<open>
  Claim C9, as it is written, fails. It says that every call of \<open>Do\<close> writes a
  \<open>Content-Length\<close> header into the builder. A builder with a body and no \<open>Content-Type\<close>:
  \<open>marshal\<close> fails, \<open>Do\<close> returns at once, and the builder is what it was, with no
  \<open>Content-Length\<close>.
\<close>

theorem Do_marshal_failure_keeps_headers:
  "map_option heap_after
     (Do (exampleEnv [] [] [] (exampleResponse 200)) 0 MethodPost ''http://host/items'' None
        [0 \<mapsto> (NewRequest None)\<lparr>body := Some ''foo''\<rparr>])
     = Some [0 \<mapsto> (NewRequest None)\<lparr>body := Some ''foo''\<rparr>]
   \<and> headers ((NewRequest None :: string Request)\<lparr>body := Some ''foo''\<rparr>) HeaderContentLength = None"
  by (simp add: Do_def marshal_def NewRequest_def)

text \<open>
  Claim C9, amended. When marshaling fails, \<open>Do\<close> returns the error of \<open>marshal\<close> and leaves
  the store as it was. When marshaling gives the bytes \<open>b\<close>, \<open>Do\<close> returns, whatever happens
  later in it, and the store differs in one place: the headers of the receiver hold the
  decimal numeral of the length of \<open>b\<close> under \<open>Content-Length\<close>. The query parameters, the path
  parameters, the body, the context and the client of the receiver are the same, and so are
  the other builders.
\<close>

theorem Do_frame:
  assumes "h r = Some req"
  shows "(\<forall>e. marshal env req (body req) = Inl e \<longrightarrow>
            Do env r method URL out h = Some \<lparr>err = Some e, heap_after = h, trace = [], sink = out\<rparr>)
       \<and> (\<forall>b. marshal env req (body req) = Inr b \<longrightarrow>
            (\<exists>res. Do env r method URL out h = Some res
               \<and> heap_after res =
                   h(r \<mapsto> req\<lparr>headers := (headers req)(HeaderContentLength \<mapsto> Sprintf_d (int (length b)))\<rparr>)
               \<and> decimalValue (Sprintf_d (int (length b))) = length b))"
  using assms Do_marshal_error [of h r req env] Do_heap_after [of h r req env]
    decimalValue_Sprintf_d
  by blast

theorem Do_frame_witness:
  "[0 \<mapsto> (NewRequest None)\<lparr>headers := [HeaderContentType \<mapsto> MIMEApplicationJSON], body := Some ''foo''\<rparr>] (0::nat)
     = Some ((NewRequest None)\<lparr>headers := [HeaderContentType \<mapsto> MIMEApplicationJSON], body := Some ''foo''\<rparr>)
   \<and> marshal (exampleEnv [] [] [] (exampleResponse 200))
        ((NewRequest None)\<lparr>headers := [HeaderContentType \<mapsto> MIMEApplicationJSON], body := Some ''foo''\<rparr>)
        (Some ''foo'')
     = Inr ([CHR 0x22] @ ''foo'' @ [CHR 0x22])
   \<and> map_option heap_after
        (Do (exampleEnv [] [] [] (exampleResponse 200)) 0 MethodPost ''http://host/items'' None
           [0 \<mapsto> (NewRequest None)\<lparr>headers := [HeaderContentType \<mapsto> MIMEApplicationJSON], body := Some ''foo''\<rparr>])
     = Some [0 \<mapsto> (NewRequest None)
               \<lparr>headers := [HeaderContentType \<mapsto> MIMEApplicationJSON, HeaderContentLength \<mapsto> ''5''],
                body := Some ''foo''\<rparr>]"
proof -
  let ?b = "(NewRequest None :: string Request)\<lparr>headers := [HeaderContentType \<mapsto> MIMEApplicationJSON], body := Some ''foo''\<rparr>"
  let ?env = "exampleEnv [] [] [] (exampleResponse 200)"
  have d: "Sprintf_d 5 = ''5''"
    by code_simp
  have h: "[0 \<mapsto> ?b] (0::nat) = Some ?b"
    by simp
  have m: "marshal ?env ?b (body ?b) = Inr ([CHR 0x22] @ ''foo'' @ [CHR 0x22])"
    by (simp add: marshal_def NewRequest_def exampleEnv_def NewMIME_def fromLibrary_def)
  have "\<exists>res. Do ?env 0 MethodPost ''http://host/items'' None [0 \<mapsto> ?b] = Some res
          \<and> heap_after res =
              [0 \<mapsto> ?b](0 \<mapsto> ?b\<lparr>headers := (headers ?b)(HeaderContentLength \<mapsto>
                  Sprintf_d (int (length ([CHR 0x22] @ ''foo'' @ [CHR 0x22]))))\<rparr>)"
    using Do_frame [of "[0 \<mapsto> ?b]" 0 ?b ?env MethodPost "''http://host/items''" None] h m
    by blast
  then have "map_option heap_after (Do ?env 0 MethodPost ''http://host/items'' None [0 \<mapsto> ?b])
          = Some [0 \<mapsto> (NewRequest None)
               \<lparr>headers := [HeaderContentType \<mapsto> MIMEApplicationJSON, HeaderContentLength \<mapsto> ''5''],
                body := Some ''foo''\<rparr>]"
    by (auto simp: d NewRequest_def)
  then show ?thesis
    using h m by simp
qed

text \<open>
  Claim C1. For a status outside 200..299 the claim wants the error with the code and the
  reason, and the body read to its end and closed before \<open>Do\<close> returns. The source returns
  the error straight after the test of the status, before \<open>io.Copy\<close> and \<open>Body.Close\<close>,
  which only the path of a success reaches. The run below has a server that answers 404: the
  error carries \<open>404: Not Found\<close>, and the trace ends with the call of the transport; the body
  is neither read nor closed. (\<open>Do_status_check\<close> has both halves for every response: no
  status error for a success, and for a failure the status error with this trace.)
\<close>

theorem Do_status_404_body_left_open:
  "Do (exampleEnv [] [] [''Content-Length''] (exampleResponse 404)) 0 MethodGet ''http://host/items'' None
      [0 \<mapsto> NewRequest None]
   = Some \<lparr>err = Some (HTTPStatusError ''http request failed, got status: 404: Not Found''),
           heap_after = [0 \<mapsto> (NewRequest None)\<lparr>headers := [''Content-Length'' \<mapsto> ''0'']\<rparr>],
           trace = [Transport \<lparr>req_Method = ''GET'', req_URL = ''http://host/items?'', req_Body = [],
                               req_Header = [''Content-Length'' \<mapsto> ''0''], req_Context = Background\<rparr>],
           sink = None\<rparr>"
proof -
  have d: "Sprintf_d 0 = ''0''" "Sprintf_d 404 = ''404''"
    by code_simp+
  show ?thesis
    by (simp add: run_defs d)
qed

text \<open>
  Claim C3. With a body and a \<open>Content-Type\<close> that is neither JSON nor XML, \<open>marshal\<close>
  fails with the error of its \<open>default\<close> branch, but the message is formatted from the
  body \<open>val\<close> and not from the content type: with the body \<open>"hello"\<close> and the type
  \<open>text/plain\<close> it reads \<open>serializing format 'hello' is not supported\<close>. (\<open>unmarshall\<close> formats
  the MIME type in the same place.)
\<close>

theorem marshal_unsupported_names_the_body:
  "marshal (exampleEnv [] [] [] (exampleResponse 200))
     ((NewRequest None)\<lparr>headers := [HeaderContentType \<mapsto> MIMETextPlain], body := Some ''hello''\<rparr>)
     (Some ''hello'')
   = Inl (UnsupportedFormat (''serializing format '' @ [CHR 0x27] @ ''hello'' @ [CHR 0x27] @ '' is not supported''))"
  by (simp add: marshal_def NewRequest_def exampleEnv_def NewMIME_def MIMETextPlain_def
        MIMEApplicationJSON_def MIMEApplicationJSONCharsetUTF8_def MIMEApplicationXML_def
        MIMEApplicationXMLCharsetUTF8_def charsetUTF8_def)

section \<open>The final URL\<close>

lemma replaceOccurrences_same: "new = old \<Longrightarrow> replaceOccurrences s old new = s"
proof (induction s old new rule: replaceOccurrences.induct)
  case (1 s old new)
  show ?case
  proof (cases "s = [] \<or> old = []")
    case True
    then show ?thesis by (subst replaceOccurrences.simps) simp
  next
    case False
    show ?thesis
    proof (cases "prefix old s")
      case True
      then obtain rest where s: "s = old @ rest" by (auto simp: prefix_def)
      have "replaceOccurrences (drop (length old) s) old new = drop (length old) s"
        using "1.IH"(1) [OF False True] "1.prems" by simp
      then show ?thesis
        using False True "1.prems" s by (subst replaceOccurrences.simps) simp
    next
      case np: False
      have "replaceOccurrences (tl s) old new = tl s"
        using "1.IH"(2) [OF False np] "1.prems" by simp
      then show ?thesis
        using False np by (subst replaceOccurrences.simps) simp
    qed
  qed
qed

lemma replaceOccurrences_substituteParams:
  "old \<noteq> [] \<Longrightarrow> new = QueryEscape v \<Longrightarrow> replaceOccurrences s old new = substituteParams [(old, v)] s"
proof (induction s old new rule: replaceOccurrences.induct)
  case (1 s old new)
  show ?case
  proof (cases "s = []")
    case True
    then show ?thesis
      by (subst replaceOccurrences.simps, subst substituteParams.simps) simp
  next
    case ne: False
    then have c: "\<not> (s = [] \<or> old = [])" using "1.prems" by simp
    show ?thesis
    proof (cases "prefix old s")
      case True
      have "replaceOccurrences (drop (length old) s) old new = substituteParams [(old, v)] (drop (length old) s)"
        using "1.IH"(1) [OF c True] "1.prems" by simp
      then show ?thesis
        using ne True "1.prems"
        by (subst replaceOccurrences.simps, subst substituteParams.simps) simp
    next
      case np: False
      have "replaceOccurrences (tl s) old new = substituteParams [(old, v)] (tl s)"
        using "1.IH"(2) [OF c np] "1.prems" by simp
      then show ?thesis
        using ne np "1.prems"
        by (subst replaceOccurrences.simps, subst substituteParams.simps) simp
    qed
  qed
qed

lemma ReplaceAll_substituteParams:
  assumes "n \<noteq> []"
  shows "ReplaceAll s n (QueryEscape v) = substituteParams [(n, v)] s"
proof (cases "n = QueryEscape v")
  case True
  have "replaceOccurrences s n (QueryEscape v) = s"
    using True by (simp add: replaceOccurrences_same)
  then show ?thesis
    using True assms replaceOccurrences_substituteParams [of n "QueryEscape v" v s]
    by (simp add: ReplaceAll_def)
next
  case False
  then show ?thesis
    using assms replaceOccurrences_substituteParams [of n "QueryEscape v" v s]
    by (simp add: ReplaceAll_def)
qed

lemma replacePathParams_in_turn:
  "\<forall>p \<in> set es. fst p \<noteq> [] \<Longrightarrow>
   replacePathParams s es = foldl (\<lambda>u p. substituteParams [p] u) s es"
proof (induction es arbitrary: s)
  case Nil
  show ?case by simp
next
  case (Cons e es)
  obtain n v where e: "e = (n, v)" by (cases e)
  have "n \<noteq> []" using Cons.prems e by simp
  then have "ReplaceAll s n (QueryEscape v) = substituteParams [(n, v)] s"
    by (rule ReplaceAll_substituteParams)
  then show ?case
    using Cons.IH [of "ReplaceAll s n (QueryEscape v)"] Cons.prems e by simp
qed

lemma replaceOccurrences_snoc:
  "old \<noteq> [] \<Longrightarrow> c \<notin> set old \<Longrightarrow>
   replaceOccurrences (s @ [c]) old new = replaceOccurrences s old new @ [c]"
proof (induction s old new rule: replaceOccurrences.induct)
  case (1 s old new)
  have pre: "prefix old (s @ [c]) \<longleftrightarrow> prefix old s"
    using "1.prems" by (auto simp: prefix_snoc)
  show ?case
  proof (cases "s = []")
    case True
    have "\<not> prefix old [c]"
      using pre True "1.prems" by simp
    moreover have "replaceOccurrences [] old new = []"
      by (subst replaceOccurrences.simps) simp
    ultimately show ?thesis
      using True "1.prems" by (subst replaceOccurrences.simps) simp
  next
    case ne: False
    then have cnd: "\<not> (s = [] \<or> old = [])" using "1.prems" by simp
    show ?thesis
    proof (cases "prefix old s")
      case True
      then have len: "length old \<le> length s" by (rule prefix_length_le)
      have "replaceOccurrences (drop (length old) s @ [c]) old new
              = replaceOccurrences (drop (length old) s) old new @ [c]"
        using "1.IH"(1) [OF cnd True] "1.prems" by simp
      moreover have "replaceOccurrences (s @ [c]) old new
              = new @ replaceOccurrences (drop (length old) s @ [c]) old new"
        using True pre len "1.prems" by (subst replaceOccurrences.simps) simp
      moreover have "replaceOccurrences s old new = new @ replaceOccurrences (drop (length old) s) old new"
        using True cnd by (subst replaceOccurrences.simps) simp
      ultimately show ?thesis by simp
    next
      case np: False
      have "replaceOccurrences (tl s @ [c]) old new = replaceOccurrences (tl s) old new @ [c]"
        using "1.IH"(2) [OF cnd np] "1.prems" by simp
      moreover have "replaceOccurrences (s @ [c]) old new
              = hd s # replaceOccurrences (tl s @ [c]) old new"
        using np pre ne "1.prems" by (subst replaceOccurrences.simps) simp
      moreover have "replaceOccurrences s old new = hd s # replaceOccurrences (tl s) old new"
        using np cnd by (subst replaceOccurrences.simps) simp
      ultimately show ?thesis by simp
    qed
  qed
qed

lemma ReplaceAll_snoc:
  "old \<noteq> [] \<Longrightarrow> c \<notin> set old \<Longrightarrow> ReplaceAll (s @ [c]) old new = ReplaceAll s old new @ [c]"
  by (simp add: ReplaceAll_def replaceOccurrences_snoc)

lemma replacePathParams_snoc:
  "\<forall>p \<in> set es. fst p \<noteq> [] \<and> c \<notin> set (fst p) \<Longrightarrow>
   replacePathParams (s @ [c]) es = replacePathParams s es @ [c]"
proof (induction es arbitrary: s)
  case Nil
  show ?case by simp
next
  case (Cons e es)
  obtain n v where e: "e = (n, v)" by (cases e)
  have "ReplaceAll (s @ [c]) n (QueryEscape v) = ReplaceAll s n (QueryEscape v) @ [c]"
    using Cons.prems e by (simp add: ReplaceAll_snoc)
  then show ?case
    using Cons.IH [of "ReplaceAll s n (QueryEscape v)"] Cons.prems e by simp
qed

lemma range_entries_keys: "p \<in> set (range_entries m ks) \<Longrightarrow> fst p \<in> dom m"
  using range_entries_in_map [of "fst p" "snd p" m ks] by auto

lemma range_entries_empty: "range_entries Map.empty ks = []"
  by (induction ks) (simp_all add: range_entries_Nil range_entries_Cons)

lemma range_entries_single:
  assumes "iteration_order [n \<mapsto> v] ks"
  shows "range_entries [n \<mapsto> v] ks = [(n, v)]"
proof -
  have "filter (\<lambda>e. fst e = n) (range_entries [n \<mapsto> v] ks) = [(n, v)]"
    using assms by (simp add: entries_for_key)
  moreover have "\<forall>e \<in> set (range_entries [n \<mapsto> v] ks). fst e = n"
    using range_entries_keys [of _ "[n \<mapsto> v]" ks] by auto
  ultimately show ?thesis by simp
qed

text \<open>
  Claim C4, as it is written, fails when several path parameters are set. With \<open>x \<mapsto> y\<close>
  and \<open>y \<mapsto> x\<close> and the URL \<open>http://host/x/y\<close>, replacing every occurrence of each name in
  the URL by the value of that name gives \<open>http://host/y/x?\<close>. The loop of \<open>Do\<close> rewrites the
  whole string once for each parameter, so the second replacement also rewrites what the
  first one wrote: the URL sent is \<open>http://host/x/x?\<close> when the loop visits \<open>x\<close> first and
  \<open>http://host/y/y?\<close> when it visits \<open>y\<close> first, and Go does not fix the order.
\<close>

theorem pathParams_rewritten_in_turn:
  "map_option trace
     (Do (exampleEnv [] [''x'', ''y''] [''Content-Length''] (exampleResponse 200)) 0 MethodGet
        ''http://host/x/y'' None
        [0 \<mapsto> (NewRequest None)\<lparr>pathParams := [''x'' \<mapsto> ''y'', ''y'' \<mapsto> ''x'']\<rparr>])
     = Some [Transport \<lparr>req_Method = ''GET'', req_URL = ''http://host/x/x?'', req_Body = [],
                          req_Header = [''Content-Length'' \<mapsto> ''0''], req_Context = Background\<rparr>,
             BodyRead, BodyClose]
   \<and> map_option trace
     (Do (exampleEnv [] [''y'', ''x''] [''Content-Length''] (exampleResponse 200)) 0 MethodGet
        ''http://host/x/y'' None
        [0 \<mapsto> (NewRequest None)\<lparr>pathParams := [''x'' \<mapsto> ''y'', ''y'' \<mapsto> ''x'']\<rparr>])
     = Some [Transport \<lparr>req_Method = ''GET'', req_URL = ''http://host/y/y?'', req_Body = [],
                          req_Header = [''Content-Length'' \<mapsto> ''0''], req_Context = Background\<rparr>,
             BodyRead, BodyClose]
   \<and> substituteParams [(''x'', ''y''), (''y'', ''x'')] ''http://host/x/y?'' = ''http://host/y/x?''
   \<and> iteration_order [''x'' \<mapsto> ''y'', ''y'' \<mapsto> ''x''] [''x'', ''y'']
   \<and> iteration_order [''x'' \<mapsto> ''y'', ''y'' \<mapsto> ''x''] [''y'', ''x'']"
proof -
  have d: "Sprintf_d 0 = ''0''"
    by code_simp
  have e: "QueryEscape ''x'' = ''x''" "QueryEscape ''y'' = ''y''"
    by code_simp+
  have a: "ReplaceAll ''http://host/x/y?'' ''x'' ''y'' = ''http://host/y/y?''"
          "ReplaceAll ''http://host/y/y?'' ''y'' ''x'' = ''http://host/x/x?''"
          "ReplaceAll ''http://host/x/y?'' ''y'' ''x'' = ''http://host/x/x?''"
          "ReplaceAll ''http://host/x/x?'' ''x'' ''y'' = ''http://host/y/y?''"
    by code_simp+
  have s: "substituteParams [(''x'', ''y''), (''y'', ''x'')] ''http://host/x/y?'' = ''http://host/y/x?''"
    by code_simp
  have o: "iteration_order [''x'' \<mapsto> ''y'', ''y'' \<mapsto> ''x''] [''x'', ''y'']"
          "iteration_order [''x'' \<mapsto> ''y'', ''y'' \<mapsto> ''x''] [''y'', ''x'']"
    by (auto simp: iteration_order_def)
  have 1: "map_option trace
     (Do (exampleEnv [] [''x'', ''y''] [''Content-Length''] (exampleResponse 200)) 0 MethodGet
        ''http://host/x/y'' None
        [0 \<mapsto> (NewRequest None)\<lparr>pathParams := [''x'' \<mapsto> ''y'', ''y'' \<mapsto> ''x'']\<rparr>])
     = Some [Transport \<lparr>req_Method = ''GET'', req_URL = ''http://host/x/x?'', req_Body = [],
                          req_Header = [''Content-Length'' \<mapsto> ''0''], req_Context = Background\<rparr>,
             BodyRead, BodyClose]"
    by (simp add: run_defs d e a)
  have 2: "map_option trace
     (Do (exampleEnv [] [''y'', ''x''] [''Content-Length''] (exampleResponse 200)) 0 MethodGet
        ''http://host/x/y'' None
        [0 \<mapsto> (NewRequest None)\<lparr>pathParams := [''x'' \<mapsto> ''y'', ''y'' \<mapsto> ''x'']\<rparr>])
     = Some [Transport \<lparr>req_Method = ''GET'', req_URL = ''http://host/y/y?'', req_Body = [],
                          req_Header = [''Content-Length'' \<mapsto> ''0''], req_Context = Background\<rparr>,
             BodyRead, BodyClose]"
    by (simp add: run_defs d e a)
  show ?thesis
    using 1 2 s o by blast
qed

text \<open>
  Claim C4, amended. The URL of the request that \<open>Do\<close> hands to the transport is got from
  the given URL, \<open>?\<close> and the joined query parameters by one \<open>strings.Replace\<close> for each path
  parameter, in the order in which the loop visits the map; each of them replaces every
  occurrence of the name in the string as it then is (the query string and the values put in
  before included) by the percent-encoded value. When no name is empty, each step is the
  replacement of every literal occurrence in the words of the specification; and with one
  path parameter of a non-empty name the final URL is that replacement, applied once.
\<close>

theorem Do_replaces_path_params_in_turn:
  assumes "h r = Some req" and "Do env r method URL out h = Some res" and "Transport q \<in> set (trace res)"
  shows "req_URL q =
           replacePathParams
             (URL @ ''?'' @ Join (formatQueryParams (range_entries (queryParams req) (queryOrder env))) ''&'')
             (range_entries (pathParams req) (pathOrder env))
       \<and> ((\<forall>n \<in> dom (pathParams req). n \<noteq> []) \<longrightarrow>
            req_URL q =
              foldl (\<lambda>u p. substituteParams [p] u)
                (URL @ ''?'' @ Join (formatQueryParams (range_entries (queryParams req) (queryOrder env))) ''&'')
                (range_entries (pathParams req) (pathOrder env)))
       \<and> (\<forall>n v. n \<noteq> [] \<and> pathParams req = [n \<mapsto> v] \<and> iteration_order (pathParams req) (pathOrder env) \<longrightarrow>
            req_URL q =
              substituteParams [(n, v)]
                (URL @ ''?'' @ Join (formatQueryParams (range_entries (queryParams req) (queryOrder env))) ''&''))"
proof -
  let ?start = "URL @ ''?'' @ Join (formatQueryParams (range_entries (queryParams req) (queryOrder env))) ''&''"
  let ?es = "range_entries (pathParams req) (pathOrder env)"
  have a: "req_URL q = replacePathParams ?start ?es"
    using Do_transport_URL [OF assms(1) assms(2) assms(3)] by (simp add: finalURL_def Let_def)
  have b: "req_URL q = foldl (\<lambda>u p. substituteParams [p] u) ?start ?es"
    if "\<forall>n \<in> dom (pathParams req). n \<noteq> []"
  proof -
    have "\<forall>p \<in> set ?es. fst p \<noteq> []"
      using that range_entries_keys [of _ "pathParams req" "pathOrder env"] by blast
    then show ?thesis
      using a by (simp add: replacePathParams_in_turn)
  qed
  have c: "req_URL q = substituteParams [(n, v)] ?start"
    if "n \<noteq> [] \<and> pathParams req = [n \<mapsto> v] \<and> iteration_order (pathParams req) (pathOrder env)" for n v
  proof -
    from that have pp: "pathParams req = [n \<mapsto> v]"
      by blast
    from that have "iteration_order (pathParams req) (pathOrder env)"
      by blast
    then have "iteration_order [n \<mapsto> v] (pathOrder env)"
      unfolding pp .
    then have "range_entries [n \<mapsto> v] (pathOrder env) = [(n, v)]"
      by (rule range_entries_single)
    then have "?es = [(n, v)]"
      unfolding pp .
    then show ?thesis
      using a that by (simp add: ReplaceAll_substituteParams)
  qed
  show ?thesis
    using a b c by blast
qed

theorem Do_replaces_path_params_in_turn_witness:
  "[0 \<mapsto> (NewRequest None)\<lparr>pathParams := [''id'' \<mapsto> ''7'']\<rparr>] (0::nat)
     = Some ((NewRequest None :: string Request)\<lparr>pathParams := [''id'' \<mapsto> ''7'']\<rparr>)
   \<and> Do (exampleEnv [] [''id''] [''Content-Length''] (exampleResponse 200)) 0 MethodGet
        ''http://host/video/id'' None [0 \<mapsto> (NewRequest None)\<lparr>pathParams := [''id'' \<mapsto> ''7'']\<rparr>]
     = Some \<lparr>err = None,
             heap_after = [0 \<mapsto> (NewRequest None)\<lparr>headers := [''Content-Length'' \<mapsto> ''0''],
                                                     pathParams := [''id'' \<mapsto> ''7'']\<rparr>],
             trace = [Transport \<lparr>req_Method = ''GET'', req_URL = ''http://host/v7eo/7?'', req_Body = [],
                                 req_Header = [''Content-Length'' \<mapsto> ''0''], req_Context = Background\<rparr>,
                      BodyRead, BodyClose],
             sink = None\<rparr>
   \<and> iteration_order [''id'' \<mapsto> ''7''] [''id'']
   \<and> ''http://host/v7eo/7?'' = substituteParams [(''id'', ''7'')] ''http://host/video/id?''"
proof -
  let ?b = "(NewRequest None :: string Request)\<lparr>pathParams := [''id'' \<mapsto> ''7'']\<rparr>"
  let ?env = "exampleEnv [] [''id''] [''Content-Length''] (exampleResponse 200)"
  let ?q = "\<lparr>req_Method = ''GET'', req_URL = ''http://host/v7eo/7?'', req_Body = [],
             req_Header = [''Content-Length'' \<mapsto> ''0''], req_Context = Background\<rparr>"
  let ?res = "\<lparr>err = None,
             heap_after = [0 \<mapsto> (NewRequest None)\<lparr>headers := [''Content-Length'' \<mapsto> ''0''],
                                                     pathParams := [''id'' \<mapsto> ''7'']\<rparr>],
             trace = [Transport ?q, BodyRead, BodyClose],
             sink = None :: string option\<rparr>"
  have d: "Sprintf_d 0 = ''0''"
    by code_simp
  have e: "QueryEscape ''7'' = ''7''"
    by code_simp
  have a: "ReplaceAll ''http://host/video/id?'' ''id'' ''7'' = ''http://host/v7eo/7?''"
    by code_simp
  have h: "[0 \<mapsto> ?b] (0::nat) = Some ?b"
    by simp
  have run: "Do ?env 0 MethodGet ''http://host/video/id'' None [0 \<mapsto> ?b] = Some ?res"
    by (simp add: run_defs d e a)
  have mem: "Transport ?q \<in> set (trace ?res)"
    by simp
  have io: "iteration_order [''id'' \<mapsto> ''7''] [''id'']"
    by (simp add: iteration_order_def)
  have hyp: "''id'' \<noteq> [] \<and> pathParams ?b = [''id'' \<mapsto> ''7''] \<and> iteration_order (pathParams ?b) (pathOrder ?env)"
    using io by (simp add: exampleEnv_def)
  have "req_URL ?q = substituteParams [(''id'', ''7'')]
          (''http://host/video/id'' @ ''?'' @ Join (formatQueryParams (range_entries (queryParams ?b) (queryOrder ?env))) ''&'')"
    using Do_replaces_path_params_in_turn
            [of "[0 \<mapsto> ?b]" 0 ?b ?env MethodGet "''http://host/video/id''" None ?res ?q] h run mem hyp
    by blast
  then have "''http://host/v7eo/7?'' = substituteParams [(''id'', ''7'')] ''http://host/video/id?''"
    by (simp add: exampleEnv_def range_entries_def)
  then show ?thesis
    using h run io by simp
qed

text \<open>
  Claim C10, as it is written, fails in its last part: a request without query parameters
  whose path parameter is named \<open>?\<close> gets a final URL without the \<open>?\<close>, because the
  replacement of the path parameters comes after the \<open>?\<close> is appended and rewrites it.
\<close>

theorem question_mark_replaced:
  "map_option trace
     (Do (exampleEnv [] [''?''] [''Content-Length''] (exampleResponse 200)) 0 MethodGet ''http://host/items'' None
        [0 \<mapsto> (NewRequest None)\<lparr>pathParams := [''?'' \<mapsto> ''x'']\<rparr>])
   = Some [Transport \<lparr>req_Method = ''GET'', req_URL = ''http://host/itemsx'', req_Body = [],
                        req_Header = [''Content-Length'' \<mapsto> ''0''], req_Context = Background\<rparr>,
           BodyRead, BodyClose]"
proof -
  have d: "Sprintf_d 0 = ''0''"
    by code_simp
  have e: "QueryEscape ''x'' = ''x''"
    by code_simp
  have a: "ReplaceAll ''http://host/items?'' ''?'' ''x'' = ''http://host/itemsx''"
    by code_simp
  show ?thesis
    by (simp add: run_defs d e a)
qed

text \<open>
  Claim C10, amended. \<open>Do\<close> appends \<open>?\<close> and the joined query parameters to the URL before
  it replaces the path parameters, with or without query parameters. With no query parameter,
  and no path parameter whose name is empty or contains \<open>?\<close>, the final URL is the URL with
  its path parameters replaced, followed by a bare \<open>?\<close>.
\<close>

theorem Do_appends_question_mark:
  assumes "h r = Some req" and "Do env r method URL out h = Some res" and "Transport q \<in> set (trace res)"
  shows "req_URL q =
           replacePathParams
             (URL @ ''?'' @ Join (formatQueryParams (range_entries (queryParams req) (queryOrder env))) ''&'')
             (range_entries (pathParams req) (pathOrder env))
       \<and> (queryParams req = Map.empty \<and> (\<forall>n \<in> dom (pathParams req). n \<noteq> [] \<and> CHR ''?'' \<notin> set n) \<longrightarrow>
            req_URL q = replacePathParams URL (range_entries (pathParams req) (pathOrder env)) @ ''?'')"
proof -
  let ?es = "range_entries (pathParams req) (pathOrder env)"
  have a: "req_URL q =
           replacePathParams
             (URL @ ''?'' @ Join (formatQueryParams (range_entries (queryParams req) (queryOrder env))) ''&'') ?es"
    using Do_transport_URL [OF assms(1) assms(2) assms(3)] by (simp add: finalURL_def Let_def)
  have b: "req_URL q = replacePathParams URL ?es @ ''?''"
    if "queryParams req = Map.empty \<and> (\<forall>n \<in> dom (pathParams req). n \<noteq> [] \<and> CHR ''?'' \<notin> set n)"
  proof -
    have "\<forall>p \<in> set ?es. fst p \<noteq> [] \<and> CHR ''?'' \<notin> set (fst p)"
      using that range_entries_keys [of _ "pathParams req" "pathOrder env"] by blast
    then have "replacePathParams (URL @ [CHR ''?'']) ?es = replacePathParams URL ?es @ [CHR ''?'']"
      by (rule replacePathParams_snoc)
    then show ?thesis
      using a that by (simp add: range_entries_empty)
  qed
  show ?thesis
    using a b by blast
qed

theorem Do_appends_question_mark_witness:
  "[0 \<mapsto> (NewRequest None)\<lparr>pathParams := [''id'' \<mapsto> ''7'']\<rparr>] (0::nat)
     = Some ((NewRequest None :: string Request)\<lparr>pathParams := [''id'' \<mapsto> ''7'']\<rparr>)
   \<and> Do (exampleEnv [] [''id''] [''Content-Length''] (exampleResponse 200)) 0 MethodGet
        ''http://host/items/id'' None [0 \<mapsto> (NewRequest None)\<lparr>pathParams := [''id'' \<mapsto> ''7'']\<rparr>]
     = Some \<lparr>err = None,
             heap_after = [0 \<mapsto> (NewRequest None)\<lparr>headers := [''Content-Length'' \<mapsto> ''0''],
                                                     pathParams := [''id'' \<mapsto> ''7'']\<rparr>],
             trace = [Transport \<lparr>req_Method = ''GET'', req_URL = ''http://host/items/7?'', req_Body = [],
                                 req_Header = [''Content-Length'' \<mapsto> ''0''], req_Context = Background\<rparr>,
                      BodyRead, BodyClose],
             sink = None\<rparr>
   \<and> queryParams ((NewRequest None :: string Request)\<lparr>pathParams := [''id'' \<mapsto> ''7'']\<rparr>) = Map.empty
   \<and> dom (pathParams ((NewRequest None :: string Request)\<lparr>pathParams := [''id'' \<mapsto> ''7'']\<rparr>)) = {''id''}
   \<and> ''http://host/items/7?'' = replacePathParams ''http://host/items/id'' [(''id'', ''7'')] @ ''?''"
proof -
  let ?b = "(NewRequest None :: string Request)\<lparr>pathParams := [''id'' \<mapsto> ''7'']\<rparr>"
  let ?env = "exampleEnv [] [''id''] [''Content-Length''] (exampleResponse 200)"
  let ?q = "\<lparr>req_Method = ''GET'', req_URL = ''http://host/items/7?'', req_Body = [],
             req_Header = [''Content-Length'' \<mapsto> ''0''], req_Context = Background\<rparr>"
  let ?res = "\<lparr>err = None,
             heap_after = [0 \<mapsto> (NewRequest None)\<lparr>headers := [''Content-Length'' \<mapsto> ''0''],
                                                     pathParams := [''id'' \<mapsto> ''7'']\<rparr>],
             trace = [Transport ?q, BodyRead, BodyClose],
             sink = None :: string option\<rparr>"
  have d: "Sprintf_d 0 = ''0''"
    by code_simp
  have e: "QueryEscape ''7'' = ''7''"
    by code_simp
  have a: "ReplaceAll ''http://host/items/id?'' ''id'' ''7'' = ''http://host/items/7?''"
    by code_simp
  have h: "[0 \<mapsto> ?b] (0::nat) = Some ?b"
    by simp
  have run: "Do ?env 0 MethodGet ''http://host/items/id'' None [0 \<mapsto> ?b] = Some ?res"
    by (simp add: run_defs d e a)
  have mem: "Transport ?q \<in> set (trace ?res)"
    by simp
  have hyp: "queryParams ?b = Map.empty \<and> (\<forall>n \<in> dom (pathParams ?b). n \<noteq> [] \<and> CHR ''?'' \<notin> set n)"
    by (simp add: NewRequest_def)
  have "req_URL ?q = replacePathParams ''http://host/items/id'' (range_entries (pathParams ?b) (pathOrder ?env)) @ ''?''"
    using Do_appends_question_mark
            [of "[0 \<mapsto> ?b]" 0 ?b ?env MethodGet "''http://host/items/id''" None ?res ?q] h run mem hyp
    by blast
  then have "''http://host/items/7?'' = replacePathParams ''http://host/items/id'' [(''id'', ''7'')] @ ''?''"
    by (simp add: exampleEnv_def range_entries_def)
  then show ?thesis
    using h run by (simp add: NewRequest_def)
qed

end
